theory Spec2Isabelle
  imports Main "HOL-Library.Word"
begin

section \<open>Strings and number formatting\<close>

text \<open>
  A \<^verbatim>\<open>std::string\<close> is a sequence of bytes: a \<^typ>\<open>string\<close>. The two number
  formats the program uses are \<^verbatim>\<open>std::to_string\<close> (decimal) and the stream
  manipulators \<^verbatim>\<open>std::hex << std::setw(32) << std::setfill('0')\<close> (lowercase
  hexadecimal, right-justified in a field of at least 32 characters).
\<close>

abbreviation nl :: char where
  "nl \<equiv> CHR 0x0A"

definition digit_char :: "nat \<Rightarrow> char" where
  "digit_char d = ''0123456789abcdef'' ! d"

function dec_digits :: "nat \<Rightarrow> string" where
  "dec_digits n = (if n < 10 then [digit_char n] else dec_digits (n div 10) @ [digit_char (n mod 10)])"
  by pat_completeness auto
termination
  by (relation "measure id") auto

function hex_digits :: "nat \<Rightarrow> string" where
  "hex_digits n = (if n < 16 then [digit_char n] else hex_digits (n div 16) @ [digit_char (n mod 16)])"
  by pat_completeness auto
termination
  by (relation "measure id") auto

declare dec_digits.simps [simp del] hex_digits.simps [simp del]

text \<open>\<^verbatim>\<open>std::to_string\<close> on an unsigned and on a signed integer.\<close>

definition to_string_u :: "nat \<Rightarrow> string" where
  "to_string_u n = dec_digits n"

definition to_string_s :: "int \<Rightarrow> string" where
  "to_string_s i = (if i < 0 then CHR ''-'' # dec_digits (nat (- i)) else dec_digits (nat i))"

text \<open>\<^verbatim>\<open>setw(w)\<close> with \<^verbatim>\<open>setfill(c)\<close>: a minimum width, never a truncation.\<close>

definition setw_fill :: "nat \<Rightarrow> char \<Rightarrow> string \<Rightarrow> string" where
  "setw_fill w c s = replicate (w - length s) c @ s"

definition is_lower_hex :: "char \<Rightarrow> bool" where
  "is_lower_hex c = (c \<in> set ''0123456789abcdef'')"

section \<open>The digest\<close>

text \<open>
  \<^verbatim>\<open>generate_simple_hash\<close> reads the clock and calls \<^verbatim>\<open>std::hash<std::string>\<close>
  twice. The hash function is implementation-defined, so it is a parameter; its result
  is a \<^verbatim>\<open>size_t\<close>, taken here as 64 bits. The clock reading (whole seconds since the
  epoch, a signed count) is the second parameter.
\<close>

type_synonym hasher = "string \<Rightarrow> 64 word"

definition generate_simple_hash :: "hasher \<Rightarrow> int \<Rightarrow> string \<Rightarrow> string" where
  "generate_simple_hash hasher timestamp content =
     (let data_to_hash = content @ to_string_s timestamp @ to_string_u (unat (hasher content));
          content_hash = hasher data_to_hash
      in setw_fill 32 (CHR ''0'') (hex_digits (unat content_hash)))"

section \<open>The file system\<close>

text \<open>
  The program works on six fixed paths and on \<^verbatim>\<open>.minigit/objects/<hash>\<close>. The file
  system is a map from path strings to nodes, together with the set of paths the
  operating system refuses to create or to open for writing (permissions, a read-only
  medium). A path string is its own key: no symbolic links and no \<^verbatim>\<open>..\<close>
  components are resolved. The empty path stands for the current directory, which exists.
  Text streams do not translate line ends (POSIX).
\<close>

type_synonym path = string

datatype node = Dir | File string

record filesystem =
  nodes :: "path \<Rightarrow> node option"
  write_denied :: "path \<Rightarrow> bool"

definition parent_path :: "path \<Rightarrow> path" where
  "parent_path p =
     (if CHR ''/'' \<in> set p then rev (tl (dropWhile (\<lambda>c. c \<noteq> CHR ''/'') (rev p))) else [])"

definition dir_at :: "filesystem \<Rightarrow> path \<Rightarrow> bool" where
  "dir_at fs p = (p = [] \<or> nodes fs p = Some Dir)"

definition fs_exists :: "filesystem \<Rightarrow> path \<Rightarrow> bool" where
  "fs_exists fs p = (nodes fs p \<noteq> None)"

definition fs_is_directory :: "filesystem \<Rightarrow> path \<Rightarrow> bool" where
  "fs_is_directory fs p = (nodes fs p = Some Dir)"


text \<open>
  \<^verbatim>\<open>fs::create_directory(p)\<close> (the overload without an \<^verbatim>\<open>error_code\<close>): true when
  the directory was created, false when \<^verbatim>\<open>p\<close> already is a directory, and a
  \<^verbatim>\<open>filesystem_error\<close> exception on every other failure.
\<close>

datatype mkdir_result = Created filesystem | Not_created | Mkdir_error

definition fs_create_directory :: "filesystem \<Rightarrow> path \<Rightarrow> mkdir_result" where
  "fs_create_directory fs p =
     (case nodes fs p of
        Some Dir \<Rightarrow> Not_created
      | Some (File _) \<Rightarrow> Mkdir_error
      | None \<Rightarrow>
          if dir_at fs (parent_path p) \<and> \<not> write_denied fs p
          then Created (fs\<lparr>nodes := (nodes fs)(p \<mapsto> Dir)\<rparr>)
          else Mkdir_error)"

text \<open>
  \<^verbatim>\<open>std::ofstream f(p)\<close>: the default mode truncates. \<open>None\<close> is a stream for which
  \<^verbatim>\<open>is_open()\<close> is false; otherwise the file exists and is empty.
\<close>

definition ofstream_open :: "filesystem \<Rightarrow> path \<Rightarrow> filesystem option" where
  "ofstream_open fs p =
     (if write_denied fs p then None
      else case nodes fs p of
        Some Dir \<Rightarrow> None
      | Some (File _) \<Rightarrow> Some (fs\<lparr>nodes := (nodes fs)(p \<mapsto> File [])\<rparr>)
      | None \<Rightarrow>
          if dir_at fs (parent_path p) then Some (fs\<lparr>nodes := (nodes fs)(p \<mapsto> File [])\<rparr>)
          else None)"

text \<open>
  \<^verbatim>\<open>f << s\<close> on an open output stream, when the device takes every byte:
  the bytes of \<^verbatim>\<open>s\<close> are appended.
\<close>

definition ofstream_write :: "filesystem \<Rightarrow> path \<Rightarrow> string \<Rightarrow> filesystem" where
  "ofstream_write fs p s =
     (case nodes fs p of
        Some (File old) \<Rightarrow> fs\<lparr>nodes := (nodes fs)(p \<mapsto> File (old @ s))\<rparr>
      | _ \<Rightarrow> fs)"

text \<open>
  \<^verbatim>\<open>std::ifstream f(p)\<close>: \<open>None\<close> when \<^verbatim>\<open>is_open()\<close> is false, else the bytes
  still to be read. A directory can be opened for reading (glibc), and every read from
  it fails: it reads as a stream with nothing in it.
\<close>

definition ifstream_open :: "filesystem \<Rightarrow> path \<Rightarrow> string option" where
  "ifstream_open fs p =
     (case nodes fs p of
        None \<Rightarrow> None
      | Some Dir \<Rightarrow> Some []
      | Some (File s) \<Rightarrow> Some s)"

text \<open>
  \<^verbatim>\<open>std::getline(f, line)\<close>: fails when nothing is left; otherwise takes the bytes
  up to the next newline or the end of the file, and drops the newline.
\<close>

definition getline :: "string \<Rightarrow> (string \<times> string) option" where
  "getline s =
     (if s = [] then None
      else Some (takeWhile (\<lambda>c. c \<noteq> nl) s, drop 1 (dropWhile (\<lambda>c. c \<noteq> nl) s)))"

text \<open>The loop \<^verbatim>\<open>while (std::getline(infile, line)) content += line + "\n";\<close>\<close>

function read_lines :: "string \<Rightarrow> string \<Rightarrow> string" where
  "read_lines content s =
     (case getline s of
        None \<Rightarrow> content
      | Some (line, rest) \<Rightarrow> read_lines (content @ line @ [nl]) rest)"
  by pat_completeness auto
termination
proof (relation "measure (\<lambda>(content, s). length s)")
  fix content s :: string and x line rest
  assume "getline s = Some x" and "(line, rest) = x"
  then have "s \<noteq> []" and "rest = drop 1 (dropWhile (\<lambda>c. c \<noteq> nl) s)"
    by (auto simp: getline_def split: if_splits)
  moreover have "length (dropWhile (\<lambda>c. c \<noteq> nl) s) \<le> length s"
    by (rule length_dropWhile_le)
  ultimately have "length rest < length s"
    by (cases s) auto
  then show "((content @ line @ [nl], rest), (content, s)) \<in> measure (\<lambda>(content, s). length s)"
    by simp
qed simp

declare read_lines.simps [simp del]

section \<open>The repository\<close>

text \<open>
  Everything the program prints is kept, in order, as a list of lines tagged with the
  stream (\<^verbatim>\<open>std::cout\<close> or \<^verbatim>\<open>std::cerr\<close>).
\<close>

datatype event = Cout string | Cerr string

text \<open>The member \<^verbatim>\<open>minigit_dir_name_\<close> and the paths built from it.\<close>

definition minigit_dir_name :: path where
  "minigit_dir_name = ''.minigit''"

definition objects_path :: path where
  "objects_path = minigit_dir_name @ ''/objects''"

definition refs_path :: path where
  "refs_path = minigit_dir_name @ ''/refs''"

definition heads_path :: path where
  "heads_path = refs_path @ ''/heads''"

definition head_path :: path where
  "head_path = minigit_dir_name @ ''/HEAD''"

definition main_branch_path :: path where
  "main_branch_path = heads_path @ ''/main''"

definition blob_path :: "string \<Rightarrow> path" where
  "blob_path hash = minigit_dir_name @ ''/objects/'' @ hash"

text \<open>
  How a run of \<^verbatim>\<open>init\<close> ends: at the end of the body, at one of its
  \<^verbatim>\<open>return\<close> statements, or by a \<^verbatim>\<open>filesystem_error\<close> that nothing catches.
\<close>

datatype status = Completed | Returned_early | Terminated

type_synonym run = "filesystem \<times> event list"

text \<open>
  The first block of \<^verbatim>\<open>init\<close>: the repository root. \<open>cwd\<close> is the text that
  printing \<^verbatim>\<open>fs::current_path()\<close> gives.
\<close>

definition ensure_root :: "string \<Rightarrow> run \<Rightarrow> (status \<times> run) + run" where
  "ensure_root cwd r =
     (case r of (fs, ev) \<Rightarrow>
        if fs_exists fs minigit_dir_name \<and> fs_is_directory fs minigit_dir_name
        then Inr (fs, ev @ [Cout (''Reinitializing existing MiniGit repository in '' @ cwd)])
        else (case fs_create_directory fs minigit_dir_name of
                Mkdir_error \<Rightarrow> Inl (Terminated, (fs, ev))
              | Not_created \<Rightarrow>
                  Inl (Returned_early,
                       (fs, ev @ [Cerr (''Error: Could not create directory '' @ minigit_dir_name)]))
              | Created fs' \<Rightarrow>
                  Inr (fs', ev @ [Cout (''Created directory: '' @ minigit_dir_name)])))"

text \<open>The block repeated for \<^verbatim>\<open>objects\<close>, \<^verbatim>\<open>refs\<close> and \<^verbatim>\<open>refs/heads\<close>.\<close>

definition ensure_directory :: "path \<Rightarrow> run \<Rightarrow> (status \<times> run) + run" where
  "ensure_directory p r =
     (case r of (fs, ev) \<Rightarrow>
        if \<not> fs_exists fs p
        then (case fs_create_directory fs p of
                Mkdir_error \<Rightarrow> Inl (Terminated, (fs, ev))
              | Not_created \<Rightarrow>
                  Inl (Returned_early, (fs, ev @ [Cerr (''Error: Could not create directory '' @ p)]))
              | Created fs' \<Rightarrow> Inr (fs', ev @ [Cout (''Created directory: '' @ p)]))
        else Inr (fs, ev))"

definition head_content :: string where
  "head_content = ''ref: refs/heads/main'' @ [nl]"

definition head_error :: event where
  "head_error = Cerr ''Error: Could not create HEAD file.''"

definition main_error :: event where
  "main_error = Cerr ''Error: Could not create main branch file.''"

definition success_banner :: event where
  "success_banner = Cout ''MiniGit repository initialized successfully!''"

definition write_head :: "run \<Rightarrow> run" where
  "write_head r =
     (case r of (fs, ev) \<Rightarrow>
        (case ofstream_open fs head_path of
           Some fs' \<Rightarrow>
             (ofstream_write fs' head_path head_content,
              ev @ [Cout ''Initialized HEAD to point to refs/heads/main''])
         | None \<Rightarrow> (fs, ev @ [head_error])))"

definition create_main :: "run \<Rightarrow> run" where
  "create_main r =
     (case r of (fs, ev) \<Rightarrow>
        (case ofstream_open fs main_branch_path of
           Some fs' \<Rightarrow> (fs', ev @ [Cout ''Created initial 'main' branch reference file.''])
         | None \<Rightarrow> (fs, ev @ [main_error])))"

definition init :: "string \<Rightarrow> filesystem \<Rightarrow> status \<times> run" where
  "init cwd fs =
     (case ensure_root cwd (fs, [Cout ''Initializing MiniGit repository...'']) of
        Inl stop \<Rightarrow> stop
      | Inr r1 \<Rightarrow>
     (case ensure_directory objects_path r1 of
        Inl stop \<Rightarrow> stop
      | Inr r2 \<Rightarrow>
     (case ensure_directory refs_path r2 of
        Inl stop \<Rightarrow> stop
      | Inr r3 \<Rightarrow>
     (case ensure_directory heads_path r3 of
        Inl stop \<Rightarrow> stop
      | Inr r4 \<Rightarrow>
          (case create_main (write_head r4) of
             (fs', ev) \<Rightarrow> (Completed, (fs', ev @ [success_banner])))))))"

text \<open>
  \<^verbatim>\<open>save_blob\<close> returns the hash, or the empty string when the stream did not
  open; \<^verbatim>\<open>read_blob\<close> returns the content, or the empty string when the stream
  did not open. Both also give what they printed.
\<close>

definition save_blob :: "hasher \<Rightarrow> int \<Rightarrow> string \<Rightarrow> filesystem \<Rightarrow> string \<times> run" where
  "save_blob hasher timestamp file_content fs =
     (let hash = generate_simple_hash hasher timestamp file_content;
          blob = blob_path hash
      in case ofstream_open fs blob of
           Some fs' \<Rightarrow> (hash, (ofstream_write fs' blob file_content, []))
         | None \<Rightarrow> ([], (fs, [Cerr (''Error: Could not save blob to '' @ blob)])))"

definition read_blob :: "string \<Rightarrow> filesystem \<Rightarrow> string \<times> event list" where
  "read_blob hash fs =
     (let blob = blob_path hash
      in case ifstream_open fs blob of
           Some bytes \<Rightarrow>
             (let content = read_lines [] bytes
              in (if content \<noteq> [] then butlast content else content, []))
         | None \<Rightarrow> ([], [Cerr (''Error: Could not read blob from '' @ blob)]))"




text \<open>The messages a run wrote to \<^verbatim>\<open>std::cerr\<close>.\<close>

definition reported_errors :: "event list \<Rightarrow> string list" where
  "reported_errors ev = concat (map (\<lambda>e. case e of Cerr m \<Rightarrow> [m] | Cout m \<Rightarrow> []) ev)"

section \<open>Sample inputs\<close>

text \<open>
  A disk with nothing on it and the repository that \<^verbatim>\<open>init\<close> makes of it; a
  stand-in for \<^verbatim>\<open>std::hash\<close> (the length of the string); the current directory as
  it is printed (a path is printed in double quotes).
\<close>

definition empty_disk :: filesystem where
  "empty_disk = \<lparr>nodes = Map.empty, write_denied = (\<lambda>p. False)\<rparr>"

definition fresh_repository :: filesystem where
  "fresh_repository =
     \<lparr>nodes = [''.minigit'' \<mapsto> Dir, ''.minigit/objects'' \<mapsto> Dir, ''.minigit/refs'' \<mapsto> Dir,
               ''.minigit/refs/heads'' \<mapsto> Dir, ''.minigit/HEAD'' \<mapsto> File head_content,
               ''.minigit/refs/heads/main'' \<mapsto> File []],
      write_denied = (\<lambda>p. False)\<rparr>"

definition length_hasher :: hasher where
  "length_hasher s = of_nat (length s)"

definition shown_cwd :: string where
  "shown_cwd = CHR 0x22 # ''/home/user/project'' @ [CHR 0x22]"

text \<open>
  A repository whose branch \<^verbatim>\<open>main\<close> records a digest; one whose \<^verbatim>\<open>HEAD\<close> points
  to a branch \<^verbatim>\<open>dev\<close>; one in which \<^verbatim>\<open>refs\<close> is a regular file; and one in which
  the name \<^verbatim>\<open>objects\<close> cannot be created (a dangling symbolic link of that name
  does this: it does not exist for \<^verbatim>\<open>fs::exists\<close>, and \<^verbatim>\<open>mkdir\<close> fails on it).
\<close>

definition committed_repository :: filesystem where
  "committed_repository =
     \<lparr>nodes = [''.minigit'' \<mapsto> Dir, ''.minigit/objects'' \<mapsto> Dir, ''.minigit/refs'' \<mapsto> Dir,
               ''.minigit/refs/heads'' \<mapsto> Dir, ''.minigit/HEAD'' \<mapsto> File head_content,
               ''.minigit/refs/heads/main'' \<mapsto> File (''0000000000000000000000000000001b'' @ [nl])],
      write_denied = (\<lambda>p. False)\<rparr>"


definition broken_repository :: filesystem where
  "broken_repository =
     \<lparr>nodes = [''.minigit'' \<mapsto> Dir, ''.minigit/objects'' \<mapsto> Dir,
               ''.minigit/refs'' \<mapsto> File [],
               ''.minigit/HEAD'' \<mapsto> File (''ref: refs/heads/dev'' @ [nl])],
      write_denied = (\<lambda>p. False)\<rparr>"

definition blocked_objects_repository :: filesystem where
  "blocked_objects_repository =
     \<lparr>nodes = [''.minigit'' \<mapsto> Dir], write_denied = (\<lambda>p. p = ''.minigit/objects'')\<rparr>"


text \<open>
  The digest of the specification's missing-object test, a repository holding an object
  with no content, and the repository after the test command has saved its first blob.
\<close>

definition zero_digest :: string where
  "zero_digest = ''00000000000000000000000000000000''"

definition empty_object_repository :: "string \<Rightarrow> filesystem" where
  "empty_object_repository d =
     fresh_repository\<lparr>nodes := (nodes fresh_repository)(blob_path d \<mapsto> File [])\<rparr>"

definition hello_repository :: filesystem where
  "hello_repository =
     fresh_repository\<lparr>nodes := (nodes fresh_repository)
       (''.minigit/objects/0000000000000000000000000000001b'' \<mapsto> File ''Hello, MiniGit!'')\<rparr>"

section \<open>Facts about the digest and the line reader\<close>

lemma digit_char_hex: "d < 16 \<Longrightarrow> is_lower_hex (digit_char d)"
proof -
  have "list_all (\<lambda>d. is_lower_hex (digit_char d)) [0..<16]"
    by code_simp
  moreover assume "d < 16"
  ultimately show ?thesis by (simp add: list_all_iff)
qed

lemma hex_digits_chars: "list_all is_lower_hex (hex_digits n)"
proof (induction n rule: hex_digits.induct)
  case (1 n)
  show ?case
  proof (cases "n < 16")
    case True
    then show ?thesis by (subst hex_digits.simps) (simp add: digit_char_hex)
  next
    case False
    with "1" have "list_all is_lower_hex (hex_digits (n div 16))" by simp
    with False show ?thesis
      by (subst hex_digits.simps) (simp add: digit_char_hex)
  qed
qed

lemma hex_digits_length: "0 < k \<Longrightarrow> n < 16 ^ k \<Longrightarrow> length (hex_digits n) \<le> k"
proof (induction n arbitrary: k rule: hex_digits.induct)
  case (1 n)
  show ?case
  proof (cases "n < 16")
    case True
    with "1.prems" show ?thesis by (subst hex_digits.simps) simp
  next
    case False
    from "1.prems" obtain j where k: "k = Suc j" by (cases k) auto
    with False "1.prems" have "0 < j" by (cases j) auto
    moreover from k "1.prems" have "n div 16 < 16 ^ j"
      by (simp add: less_mult_imp_div_less mult.commute)
    ultimately have "length (hex_digits (n div 16)) \<le> j"
      using "1.IH" False by blast
    with False k show ?thesis
      by (subst hex_digits.simps) simp
  qed
qed

lemma hex_digits_word64: "length (hex_digits (unat (w :: 64 word))) \<le> 16"
proof -
  have "unat w < 2 ^ 64" using unsigned_less [of w] by simp
  also have "(2::nat) ^ 64 = 16 ^ 16" by simp
  finally show ?thesis by (intro hex_digits_length) simp_all
qed

lemma generate_simple_hash_length: "length (generate_simple_hash hasher t c) = 32"
  using hex_digits_word64 [of "hasher (c @ to_string_s t @ to_string_u (unat (hasher c)))"]
  by (simp add: generate_simple_hash_def setw_fill_def Let_def)

lemma generate_simple_hash_chars: "list_all is_lower_hex (generate_simple_hash hasher t c)"
proof -
  have "is_lower_hex (CHR ''0'')" by (simp add: is_lower_hex_def)
  then have "list_all is_lower_hex (replicate k (CHR ''0''))" for k
    by (simp add: list_all_iff)
  then show ?thesis
    by (simp add: generate_simple_hash_def setw_fill_def Let_def hex_digits_chars)
qed

lemma getline_Some:
  "s \<noteq> [] \<Longrightarrow> \<exists>line rest. getline s = Some (line, rest) \<and> nl \<notin> set line \<and>
     (s = line \<and> rest = [] \<or> s = line @ nl # rest)"
proof -
  assume ne: "s \<noteq> []"
  define line where "line = takeWhile (\<lambda>c. c \<noteq> nl) s"
  define tail where "tail = dropWhile (\<lambda>c. c \<noteq> nl) s"
  have s: "s = line @ tail"
    by (simp add: line_def tail_def)
  have g: "getline s = Some (line, drop 1 tail)"
    using ne by (simp add: getline_def line_def tail_def)
  have l: "nl \<notin> set line"
    unfolding line_def by (auto dest: set_takeWhileD)
  show ?thesis
  proof (cases tail)
    case Nil
    with s g l show ?thesis by simp
  next
    case (Cons a rest)
    then have "a = nl"
      using hd_dropWhile [of "\<lambda>c. c \<noteq> nl" s] by (simp add: tail_def)
    with Cons s g l show ?thesis by simp
  qed
qed

lemma read_lines_eq:
  "read_lines content s = content @ (if s = [] \<or> last s = nl then s else s @ [nl])"
proof (induction content s rule: read_lines.induct)
  case (1 content s)
  show ?case
  proof (cases "s = []")
    case True
    then show ?thesis by (subst read_lines.simps) (simp add: getline_def)
  next
    case False
    then obtain line rest where g: "getline s = Some (line, rest)"
      and l: "nl \<notin> set line"
      and s: "s = line \<and> rest = [] \<or> s = line @ nl # rest"
      using getline_Some by blast
    have step: "read_lines content s = read_lines (content @ line @ [nl]) rest"
      using g by (subst read_lines.simps) simp
    have IH: "read_lines (content @ line @ [nl]) rest =
        (content @ line @ [nl]) @ (if rest = [] \<or> last rest = nl then rest else rest @ [nl])"
      using "1.IH" [OF g refl] .
    from s show ?thesis
    proof
      assume a: "s = line \<and> rest = []"
      with False l have "last s \<noteq> nl" using last_in_set by metis
      with a False step IH show ?thesis by simp
    next
      assume a: "s = line @ nl # rest"
      then have "last s = (if rest = [] then nl else last rest)" by simp
      with a step IH show ?thesis by simp
    qed
  qed
qed

text \<open>
  Reading a regular file gives its bytes without one trailing newline, if it has one.
\<close>

lemma read_blob_file:
  "nodes fs (blob_path h) = Some (File s) \<Longrightarrow>
   read_blob h fs = (if s \<noteq> [] \<and> last s = nl then butlast s else s, [])"
  by (simp add: read_blob_def ifstream_open_def read_lines_eq Let_def butlast_append)

lemma read_blob_missing_eq:
  "nodes fs (blob_path d) = None \<Longrightarrow>
   read_blob d fs = ([], [Cerr (''Error: Could not read blob from '' @ blob_path d)])"
  by (simp add: read_blob_def ifstream_open_def Let_def)

section \<open>Facts about \<^verbatim>\<open>save_blob\<close>\<close>

lemma save_blob_ok:
  assumes "save_blob hasher t c fs = (d, fs', ev)" and "d \<noteq> []"
  shows "d = generate_simple_hash hasher t c \<and> ev = [] \<and>
         ofstream_open fs (blob_path d) \<noteq> None \<and>
         fs' = fs\<lparr>nodes := (nodes fs)(blob_path d \<mapsto> File c)\<rparr>"
  using assms
  by (auto simp: save_blob_def Let_def ofstream_open_def ofstream_write_def
      split: option.splits if_splits node.splits)

lemma save_blob_failed:
  assumes "ofstream_open fs (blob_path (generate_simple_hash hasher t c)) = None"
  shows "save_blob hasher t c fs =
     ([], fs, [Cerr (''Error: Could not save blob to '' @ blob_path (generate_simple_hash hasher t c))])"
  using assms by (simp add: save_blob_def Let_def)






section \<open>Facts about \<^verbatim>\<open>init\<close>\<close>

lemmas path_defs = minigit_dir_name_def objects_path_def refs_path_def heads_path_def
  head_path_def main_branch_path_def

lemmas step_defs = ensure_root_def ensure_directory_def write_head_def create_main_def
  fs_exists_def fs_is_directory_def fs_create_directory_def ofstream_open_def
  ofstream_write_def dir_at_def

lemma parent_paths:
  "parent_path ''.minigit'' = []"
  "parent_path ''.minigit/objects'' = ''.minigit''"
  "parent_path ''.minigit/refs'' = ''.minigit''"
  "parent_path ''.minigit/refs/heads'' = ''.minigit/refs''"
  "parent_path ''.minigit/HEAD'' = ''.minigit''"
  "parent_path ''.minigit/refs/heads/main'' = ''.minigit/refs/heads''"
  by (simp_all add: parent_path_def)


lemma dir_paths_distinct:
  "objects_path \<noteq> head_path" "objects_path \<noteq> main_branch_path"
  "refs_path \<noteq> head_path" "refs_path \<noteq> main_branch_path"
  "heads_path \<noteq> head_path" "heads_path \<noteq> main_branch_path"
  "minigit_dir_name \<noteq> head_path" "minigit_dir_name \<noteq> main_branch_path"
  by (simp_all add: path_defs)

text \<open>
  Each directory block as one equation. The branch that prints
  \<^verbatim>\<open>Error: Could not create directory\<close> and returns does not occur in it:
  \<^verbatim>\<open>fs::create_directory\<close> gives false only for a directory that exists, and the
  block asks for the directory only after \<^verbatim>\<open>fs::exists\<close> said no. A directory that
  cannot be created ends the run by the exception.
\<close>

lemma ensure_directory_eq:
  "ensure_directory p (fs, ev) =
     (if nodes fs p \<noteq> None then Inr (fs, ev)
      else if dir_at fs (parent_path p) \<and> \<not> write_denied fs p
      then Inr (fs\<lparr>nodes := (nodes fs)(p \<mapsto> Dir)\<rparr>, ev @ [Cout (''Created directory: '' @ p)])
      else Inl (Terminated, (fs, ev)))"
  by (simp add: ensure_directory_def fs_exists_def fs_create_directory_def
      split: option.splits node.splits)

lemma ensure_root_eq:
  "ensure_root cwd (fs, ev) =
     (if nodes fs minigit_dir_name = Some Dir
      then Inr (fs, ev @ [Cout (''Reinitializing existing MiniGit repository in '' @ cwd)])
      else if nodes fs minigit_dir_name = None \<and> \<not> write_denied fs minigit_dir_name
      then Inr (fs\<lparr>nodes := (nodes fs)(minigit_dir_name \<mapsto> Dir)\<rparr>,
                ev @ [Cout (''Created directory: '' @ minigit_dir_name)])
      else Inl (Terminated, (fs, ev)))"
  by (auto simp: ensure_root_def fs_exists_def fs_is_directory_def fs_create_directory_def
      dir_at_def parent_path_def minigit_dir_name_def split: option.splits node.splits)

lemma ensure_directory_Inr:
  assumes "ensure_directory p r = Inr r'"
  shows "nodes (fst r') p \<noteq> None"
    and "q \<noteq> p \<Longrightarrow> nodes (fst r') q = nodes (fst r) q"
    and "nodes (fst r) q \<noteq> None \<Longrightarrow> nodes (fst r') q = nodes (fst r) q"
    and "write_denied (fst r') = write_denied (fst r)"
    and "reported_errors (snd r') = reported_errors (snd r)"
    and "e \<in> set (snd r') \<Longrightarrow> e \<in> set (snd r) \<or> e = Cout (''Created directory: '' @ p)"
  using assms
  by (cases r; cases r'; auto simp: ensure_directory_eq reported_errors_def split: if_splits)+

lemma ensure_directory_Inl:
  assumes "ensure_directory p r = Inl (st, r')"
  shows "st = Terminated" and "r' = r" and "nodes (fst r) p = None"
  using assms
  by (cases r; cases r'; auto simp: ensure_directory_eq split: if_splits)+

lemma ensure_root_Inr:
  assumes "ensure_root cwd r = Inr r'"
  shows "nodes (fst r') minigit_dir_name = Some Dir"
    and "q \<noteq> minigit_dir_name \<Longrightarrow> nodes (fst r') q = nodes (fst r) q"
    and "write_denied (fst r') = write_denied (fst r)"
    and "reported_errors (snd r') = reported_errors (snd r)"
    and "e \<in> set (snd r') \<Longrightarrow> e \<in> set (snd r) \<or>
           e = Cout (''Created directory: '' @ minigit_dir_name) \<or>
           e = Cout (''Reinitializing existing MiniGit repository in '' @ cwd)"
  using assms
  by (cases r; cases r'; auto simp: ensure_root_eq reported_errors_def split: if_splits)+

lemma ensure_root_Inl:
  assumes "ensure_root cwd r = Inl (st, r')"
  shows "st = Terminated" and "r' = r"
  using assms
  by (cases r; cases r'; auto simp: ensure_root_eq split: if_splits)+

lemma write_head_eq:
  "write_head (fs, ev) =
     (if ofstream_open fs head_path \<noteq> None
      then (fs\<lparr>nodes := (nodes fs)(head_path \<mapsto> File head_content)\<rparr>,
            ev @ [Cout ''Initialized HEAD to point to refs/heads/main''])
      else (fs, ev @ [head_error]))"
  by (auto simp: write_head_def ofstream_open_def ofstream_write_def
      split: option.splits node.splits if_splits)

lemma create_main_eq:
  "create_main (fs, ev) =
     (if ofstream_open fs main_branch_path \<noteq> None
      then (fs\<lparr>nodes := (nodes fs)(main_branch_path \<mapsto> File [])\<rparr>,
            ev @ [Cout ''Created initial 'main' branch reference file.''])
      else (fs, ev @ [main_error]))"
  by (auto simp: create_main_def ofstream_open_def split: option.splits node.splits if_splits)


lemma init_cases:
  fixes cwd fs
  defines "r0 \<equiv> (fs, [Cout ''Initializing MiniGit repository...''])"
  obtains
    (root) "ensure_root cwd r0 = Inl (init cwd fs)"
  | (objects) r1 where "ensure_root cwd r0 = Inr r1"
      "ensure_directory objects_path r1 = Inl (init cwd fs)"
  | (refs) r1 r2 where "ensure_root cwd r0 = Inr r1"
      "ensure_directory objects_path r1 = Inr r2"
      "ensure_directory refs_path r2 = Inl (init cwd fs)"
  | (heads) r1 r2 r3 where "ensure_root cwd r0 = Inr r1"
      "ensure_directory objects_path r1 = Inr r2"
      "ensure_directory refs_path r2 = Inr r3"
      "ensure_directory heads_path r3 = Inl (init cwd fs)"
  | (completed) r1 r2 r3 r4 where "ensure_root cwd r0 = Inr r1"
      "ensure_directory objects_path r1 = Inr r2"
      "ensure_directory refs_path r2 = Inr r3"
      "ensure_directory heads_path r3 = Inr r4"
      "init cwd fs = (Completed, fst (create_main (write_head r4)),
                      snd (create_main (write_head r4)) @ [success_banner])"
proof (cases "ensure_root cwd r0")
  case (Inl a)
  then have "init cwd fs = a" by (simp add: init_def r0_def)
  with Inl root show ?thesis by simp
next
  case r1: (Inr r1)
  show ?thesis
  proof (cases "ensure_directory objects_path r1")
    case (Inl a)
    with r1 have "init cwd fs = a" by (simp add: init_def r0_def)
    with Inl r1 objects show ?thesis by simp
  next
    case r2: (Inr r2)
    show ?thesis
    proof (cases "ensure_directory refs_path r2")
      case (Inl a)
      with r1 r2 have "init cwd fs = a" by (simp add: init_def r0_def)
      with Inl r1 r2 refs show ?thesis by simp
    next
      case r3: (Inr r3)
      show ?thesis
      proof (cases "ensure_directory heads_path r3")
        case (Inl a)
        with r1 r2 r3 have "init cwd fs = a" by (simp add: init_def r0_def)
        with Inl r1 r2 r3 heads show ?thesis by simp
      next
        case r4: (Inr r4)
        with r1 r2 r3 have "init cwd fs = (Completed, fst (create_main (write_head r4)),
                      snd (create_main (write_head r4)) @ [success_banner])"
          by (simp add: init_def r0_def split: prod.splits)
        with r1 r2 r3 r4 completed show ?thesis by simp
      qed
    qed
  qed
qed

lemma ensure_directory_frame:
  assumes "ensure_directory p r = Inr r'" and "p \<noteq> head_path" and "p \<noteq> main_branch_path"
  shows "nodes (fst r') head_path = nodes (fst r) head_path"
    and "nodes (fst r') main_branch_path = nodes (fst r) main_branch_path"
    and "success_banner \<in> set (snd r') \<Longrightarrow> success_banner \<in> set (snd r)"
    and "reported_errors (snd r') = reported_errors (snd r)"
  using ensure_directory_Inr(2,5,6) [OF assms(1)] assms(2,3)
  by (auto simp: success_banner_def)

lemma ensure_root_frame:
  assumes "ensure_root cwd r = Inr r'"
  shows "nodes (fst r') head_path = nodes (fst r) head_path"
    and "nodes (fst r') main_branch_path = nodes (fst r) main_branch_path"
    and "success_banner \<in> set (snd r') \<Longrightarrow> success_banner \<in> set (snd r)"
    and "reported_errors (snd r') = reported_errors (snd r)"
  using ensure_root_Inr(2,4,5) [OF assms] dir_paths_distinct(7,8)
  by (auto simp: success_banner_def)

lemma init_stopped:
  assumes "init cwd fs = (st, fs', ev)" and "st \<noteq> Completed"
  shows "st = Terminated"
    and "nodes fs' head_path = nodes fs head_path"
    and "nodes fs' main_branch_path = nodes fs main_branch_path"
    and "success_banner \<notin> set ev"
    and "reported_errors ev = []"
proof -
  let ?r0 = "(fs, [Cout ''Initializing MiniGit repository...''])"
  have r0: "success_banner \<notin> set (snd ?r0)" "reported_errors (snd ?r0) = []"
    by (simp_all add: success_banner_def reported_errors_def)
  have "st = Terminated \<and> nodes fs' head_path = nodes fs head_path \<and>
      nodes fs' main_branch_path = nodes fs main_branch_path \<and>
      success_banner \<notin> set ev \<and> reported_errors ev = []"
  proof (cases cwd fs rule: init_cases)
    case root
    with assms(1) have "ensure_root cwd ?r0 = Inl (st, (fs', ev))" by simp
    from ensure_root_Inl [OF this] r0 show ?thesis by auto
  next
    case (objects r1)
    with assms(1) have "ensure_directory objects_path r1 = Inl (st, (fs', ev))" by simp
    from ensure_directory_Inl(1,2) [OF this] ensure_root_frame [OF objects(1)] r0
    show ?thesis by auto
  next
    case (refs r1 r2)
    with assms(1) have "ensure_directory refs_path r2 = Inl (st, (fs', ev))" by simp
    from ensure_directory_Inl(1,2) [OF this] ensure_root_frame [OF refs(1)]
      ensure_directory_frame [OF refs(2) dir_paths_distinct(1,2)] r0
    show ?thesis by auto
  next
    case (heads r1 r2 r3)
    with assms(1) have "ensure_directory heads_path r3 = Inl (st, (fs', ev))" by simp
    from ensure_directory_Inl(1,2) [OF this] ensure_root_frame [OF heads(1)]
      ensure_directory_frame [OF heads(2) dir_paths_distinct(1,2)]
      ensure_directory_frame [OF heads(3) dir_paths_distinct(3,4)] r0
    show ?thesis by auto
  next
    case (completed r1 r2 r3 r4)
    with assms show ?thesis by simp
  qed
  then show "st = Terminated"
    and "nodes fs' head_path = nodes fs head_path"
    and "nodes fs' main_branch_path = nodes fs main_branch_path"
    and "success_banner \<notin> set ev"
    and "reported_errors ev = []"
    by simp_all
qed

lemma init_stopped_later_paths:
  assumes "init cwd fs = (st, fs', ev)" and "st \<noteq> Completed"
  shows "\<not> fs_exists fs' objects_path \<Longrightarrow>
           nodes fs' refs_path = nodes fs refs_path \<and> nodes fs' heads_path = nodes fs heads_path"
    and "\<not> fs_exists fs' refs_path \<Longrightarrow> nodes fs' heads_path = nodes fs heads_path"
proof -
  let ?r0 = "(fs, [Cout ''Initializing MiniGit repository...''])"
  have d: "refs_path \<noteq> minigit_dir_name" "heads_path \<noteq> minigit_dir_name"
    "refs_path \<noteq> objects_path" "heads_path \<noteq> objects_path" "heads_path \<noteq> refs_path"
    by (simp_all add: path_defs)
  have "(\<not> fs_exists fs' objects_path \<longrightarrow>
           nodes fs' refs_path = nodes fs refs_path \<and> nodes fs' heads_path = nodes fs heads_path) \<and>
        (\<not> fs_exists fs' refs_path \<longrightarrow> nodes fs' heads_path = nodes fs heads_path)"
  proof (cases cwd fs rule: init_cases)
    case root
    with assms(1) have "ensure_root cwd ?r0 = Inl (st, (fs', ev))" by simp
    from ensure_root_Inl(2) [OF this] show ?thesis by auto
  next
    case (objects r1)
    with assms(1) have "ensure_directory objects_path r1 = Inl (st, (fs', ev))" by simp
    from ensure_directory_Inl(2) [OF this] ensure_root_Inr(2) [OF objects(1)] d
    show ?thesis by auto
  next
    case (refs r1 r2)
    with assms(1) have "ensure_directory refs_path r2 = Inl (st, (fs', ev))" by simp
    from ensure_directory_Inl(2) [OF this] ensure_root_Inr(2) [OF refs(1)]
      ensure_directory_Inr(1,2) [OF refs(2)] d
    show ?thesis by (auto simp: fs_exists_def)
  next
    case (heads r1 r2 r3)
    with assms(1) have "ensure_directory heads_path r3 = Inl (st, (fs', ev))" by simp
    from ensure_directory_Inl(2) [OF this]
      ensure_directory_Inr(1) [OF heads(2)] ensure_directory_Inr(1,3) [OF heads(3)]
    show ?thesis by (auto simp: fs_exists_def)
  next
    case (completed r1 r2 r3 r4)
    with assms show ?thesis by simp
  qed
  then show "\<not> fs_exists fs' objects_path \<Longrightarrow>
           nodes fs' refs_path = nodes fs refs_path \<and> nodes fs' heads_path = nodes fs heads_path"
    and "\<not> fs_exists fs' refs_path \<Longrightarrow> nodes fs' heads_path = nodes fs heads_path"
    by simp_all
qed

text \<open>
  A run that ends early leaves the directory it could not create missing (for the root:
  not a directory), because the failing block changes nothing and nothing runs after it.
\<close>

lemma init_stopped_missing:
  assumes "init cwd fs = (st, fs', ev)" and "st \<noteq> Completed"
  shows "\<not> fs_is_directory fs' minigit_dir_name \<or> \<not> fs_exists fs' objects_path \<or>
         \<not> fs_exists fs' refs_path \<or> \<not> fs_exists fs' heads_path"
proof (cases cwd fs rule: init_cases)
  case root
  with assms(1) have "ensure_root cwd (fs, [Cout ''Initializing MiniGit repository...'']) =
      Inl (st, (fs', ev))" by simp
  then show ?thesis
    by (auto simp: ensure_root_eq fs_is_directory_def split: if_splits)
next
  case (objects r1)
  with assms(1) have "ensure_directory objects_path r1 = Inl (st, (fs', ev))" by simp
  from ensure_directory_Inl(2,3) [OF this] show ?thesis by (auto simp: fs_exists_def)
next
  case (refs r1 r2)
  with assms(1) have "ensure_directory refs_path r2 = Inl (st, (fs', ev))" by simp
  from ensure_directory_Inl(2,3) [OF this] show ?thesis by (auto simp: fs_exists_def)
next
  case (heads r1 r2 r3)
  with assms(1) have "ensure_directory heads_path r3 = Inl (st, (fs', ev))" by simp
  from ensure_directory_Inl(2,3) [OF this] show ?thesis by (auto simp: fs_exists_def)
next
  case (completed r1 r2 r3 r4)
  with assms show ?thesis by simp
qed

lemma init_completed_dirs:
  assumes "init cwd fs = (Completed, fs', ev)"
  shows "fs_exists fs' minigit_dir_name" and "fs_exists fs' objects_path"
    and "fs_exists fs' refs_path" and "fs_exists fs' heads_path"
proof -
  have files: "nodes (fst (create_main (write_head r))) q = nodes (fst r) q"
    if "q \<noteq> head_path" "q \<noteq> main_branch_path" for r q
    using that by (cases r) (simp add: write_head_eq create_main_eq)
  have "fs_exists fs' minigit_dir_name \<and> fs_exists fs' objects_path \<and>
      fs_exists fs' refs_path \<and> fs_exists fs' heads_path"
  proof (cases cwd fs rule: init_cases)
    case (completed r1 r2 r3 r4)
    from completed(5) assms have fs': "fs' = fst (create_main (write_head r4))" by simp
    have 1: "nodes (fst r1) minigit_dir_name \<noteq> None"
      using ensure_root_Inr(1) [OF completed(1)] by simp
    have 2: "nodes (fst r2) objects_path \<noteq> None"
      using ensure_directory_Inr(1) [OF completed(2)] .
    have 3: "nodes (fst r3) refs_path \<noteq> None"
      using ensure_directory_Inr(1) [OF completed(3)] .
    have 4: "nodes (fst r4) heads_path \<noteq> None"
      using ensure_directory_Inr(1) [OF completed(4)] .
    from 1 have "nodes (fst r4) minigit_dir_name \<noteq> None"
      using ensure_directory_Inr(3) [OF completed(2)] ensure_directory_Inr(3) [OF completed(3)]
        ensure_directory_Inr(3) [OF completed(4)] by metis
    moreover from 2 have "nodes (fst r4) objects_path \<noteq> None"
      using ensure_directory_Inr(3) [OF completed(3)] ensure_directory_Inr(3) [OF completed(4)]
      by metis
    moreover from 3 have "nodes (fst r4) refs_path \<noteq> None"
      using ensure_directory_Inr(3) [OF completed(4)] by metis
    ultimately show ?thesis
      using 4 fs' by (simp add: fs_exists_def files dir_paths_distinct)
  qed (use assms in \<open>auto dest: ensure_root_Inl(1) ensure_directory_Inl(1)\<close>)
  then show "fs_exists fs' minigit_dir_name" and "fs_exists fs' objects_path"
    and "fs_exists fs' refs_path" and "fs_exists fs' heads_path"
    by simp_all
qed






section \<open>Runs on the sample inputs\<close>

lemmas init_eval = init_def step_defs path_defs parent_paths success_banner_def head_error_def
  main_error_def


lemma init_committed:
  "init shown_cwd committed_repository =
     (Completed, fresh_repository,
      [Cout ''Initializing MiniGit repository...'',
       Cout (''Reinitializing existing MiniGit repository in '' @ shown_cwd),
       Cout ''Initialized HEAD to point to refs/heads/main'',
       Cout ''Created initial 'main' branch reference file.'',
       Cout ''MiniGit repository initialized successfully!''])"
  by (simp add: init_eval committed_repository_def fresh_repository_def head_content_def)


lemma init_broken:
  "init shown_cwd broken_repository =
     (Terminated, broken_repository,
      [Cout ''Initializing MiniGit repository...'',
       Cout (''Reinitializing existing MiniGit repository in '' @ shown_cwd)])"
  by (simp add: init_eval broken_repository_def)

lemma init_blocked_objects:
  "init shown_cwd blocked_objects_repository =
     (Terminated, blocked_objects_repository,
      [Cout ''Initializing MiniGit repository...'',
       Cout (''Reinitializing existing MiniGit repository in '' @ shown_cwd)])"
  by (simp add: init_eval blocked_objects_repository_def)




lemma demo_hash:
  "generate_simple_hash length_hasher 1700000000 ''Hello, MiniGit!'' =
     ''0000000000000000000000000000001b''"
proof -
  have u1: "unat (length_hasher ''Hello, MiniGit!'') = 15"
    by (simp add: length_hasher_def)
  have u2: "to_string_u 15 = ''15''"
    by (simp add: to_string_u_def dec_digits.simps digit_char_def)
  have d2: "to_string_s 1700000000 = ''1700000000''"
    by (simp add: to_string_s_def dec_digits.simps digit_char_def)
  have u3: "unat (length_hasher ''Hello, MiniGit!170000000015'') = 27"
    by (simp add: length_hasher_def)
  have d3: "hex_digits 27 = ''1b''"
    by (simp add: hex_digits.simps digit_char_def)
  have u4: "setw_fill 32 (CHR ''0'') ''1b'' = ''0000000000000000000000000000001b''"
    by code_simp
  show ?thesis
    by (simp add: generate_simple_hash_def Let_def u1 u2 d2 u3 d3 u4)
qed

lemma demo_blob_path:
  "blob_path ''0000000000000000000000000000001b'' = ''.minigit/objects/0000000000000000000000000000001b''"
  by (simp add: blob_path_def minigit_dir_name_def)

lemma demo_blob_parent:
  "parent_path ''.minigit/objects/0000000000000000000000000000001b'' = ''.minigit/objects''"
  by (simp add: parent_path_def)

lemma demo_save:
  "save_blob length_hasher 1700000000 ''Hello, MiniGit!'' fresh_repository =
     (''0000000000000000000000000000001b'',
      fresh_repository\<lparr>nodes := (nodes fresh_repository)
         (''.minigit/objects/0000000000000000000000000000001b'' \<mapsto> File ''Hello, MiniGit!'')\<rparr>,
      [])"
  by (simp add: save_blob_def Let_def demo_hash demo_blob_path ofstream_open_def
      ofstream_write_def fresh_repository_def parent_path_def dir_at_def)

lemma demo_save_hello:
  "save_blob length_hasher 1700000000 ''Hello, MiniGit!'' fresh_repository =
     (''0000000000000000000000000000001b'', hello_repository, [])"
  by (simp add: demo_save hello_repository_def)


lemma demo_save_again:
  "save_blob length_hasher 1700000000 ''Hello, MiniGit!'' hello_repository =
     (''0000000000000000000000000000001b'', hello_repository, [])"
  by (simp add: save_blob_def Let_def demo_hash demo_blob_path ofstream_open_def
      ofstream_write_def hello_repository_def fresh_repository_def)

lemma empty_disk_cannot_open:
  "ofstream_open empty_disk
     (blob_path (generate_simple_hash length_hasher 1700000000 ''Hello, MiniGit!'')) = None"
  by (simp add: ofstream_open_def empty_disk_def dir_at_def demo_hash demo_blob_path
      demo_blob_parent)

lemma fresh_no_object: "nodes fresh_repository (blob_path d) = None"
  by (simp add: fresh_repository_def blob_path_def minigit_dir_name_def)

lemma empty_object_present: "nodes (empty_object_repository d) (blob_path d) = Some (File [])"
  by (simp add: empty_object_repository_def)

section \<open>Write, then read\<close>

text \<open>
  Claim C1. For every content string that does not end in a newline, if
  \<^verbatim>\<open>save_blob\<close> succeeds and returns the digest \<open>d\<close> (a non-empty return value:
  the failure value is the empty string), then \<^verbatim>\<open>read_blob\<close> on \<open>d\<close> in the
  resulting file system returns exactly that content, and prints nothing. The witness is
  the content \<^verbatim>\<open>Hello, MiniGit!\<close> of the program's own test command.
\<close>

theorem save_then_read_roundtrip:
  assumes "c = [] \<or> last c \<noteq> nl"
    and "save_blob hasher t c fs = (d, fs', ev)" and "d \<noteq> []"
  shows "read_blob d fs' = (c, [])"
proof -
  from save_blob_ok [OF assms(2,3)]
  have "nodes fs' (blob_path d) = Some (File c)" by simp
  then show ?thesis using assms(1) by (auto simp: read_blob_file)
qed

theorem save_then_read_roundtrip_witness:
  "(''Hello, MiniGit!'' = [] \<or> last ''Hello, MiniGit!'' \<noteq> nl) \<and>
   save_blob length_hasher 1700000000 ''Hello, MiniGit!'' fresh_repository =
     (''0000000000000000000000000000001b'',
      fresh_repository\<lparr>nodes := (nodes fresh_repository)
         (''.minigit/objects/0000000000000000000000000000001b'' \<mapsto> File ''Hello, MiniGit!'')\<rparr>,
      []) \<and>
   ''0000000000000000000000000000001b'' \<noteq> [] \<and>
   read_blob ''0000000000000000000000000000001b''
     (fresh_repository\<lparr>nodes := (nodes fresh_repository)
         (''.minigit/objects/0000000000000000000000000000001b'' \<mapsto> File ''Hello, MiniGit!'')\<rparr>) =
     (''Hello, MiniGit!'', [])"
proof -
  have c: "''Hello, MiniGit!'' = [] \<or> last ''Hello, MiniGit!'' \<noteq> nl" by simp
  have ne: "''0000000000000000000000000000001b'' \<noteq> []" by simp
  from save_then_read_roundtrip [OF c demo_save ne] c demo_save ne show ?thesis by blast
qed

section \<open>Reading a digest that was never written\<close>

text \<open>
  Claim C2, as amended. For every digest \<open>d\<close> for which no object file exists,
  \<^verbatim>\<open>read_blob\<close> does not crash: it prints
  \<^verbatim>\<open>Error: Could not read blob from .minigit/objects/<d>\<close> on the error stream and
  returns the empty string. The return type has no error value; the empty string is also
  what reading an object with no content returns.
\<close>

theorem read_blob_missing_reports:
  assumes "nodes fs (blob_path d) = None"
  shows "read_blob d fs = ([], [Cerr (''Error: Could not read blob from '' @ blob_path d)])"
  using assms by (rule read_blob_missing_eq)

theorem read_blob_missing_reports_witness:
  "nodes fresh_repository (blob_path zero_digest) = None \<and>
   read_blob zero_digest fresh_repository =
     ([], [Cerr ''Error: Could not read blob from .minigit/objects/00000000000000000000000000000000''])"
  using read_blob_missing_reports [OF fresh_no_object [of zero_digest]] fresh_no_object [of zero_digest]
  by (simp add: blob_path_def minigit_dir_name_def zero_digest_def)

text \<open>
  Claim C2 as stated asks for an error that is distinct from an empty-content success.
  For the digest of 32 zeros, the value returned when the object is missing is the value
  returned when the object exists and is empty.
\<close>

theorem read_blob_missing_counterexample:
  "length zero_digest = 32 \<and>
   nodes fresh_repository (blob_path zero_digest) = None \<and>
   nodes (empty_object_repository zero_digest) (blob_path zero_digest) = Some (File []) \<and>
   fst (read_blob zero_digest fresh_repository) =
     fst (read_blob zero_digest (empty_object_repository zero_digest))"
  by (simp add: read_blob_missing_eq fresh_no_object read_blob_file empty_object_present)
     (simp add: zero_digest_def)

section \<open>Running \<^verbatim>\<open>init\<close> again\<close>

text \<open>
  Claim C3 says that a second \<^verbatim>\<open>init\<close> leaves a non-empty
  \<^verbatim>\<open>refs/heads/main\<close> as it was. The code opens the file with
  \<^verbatim>\<open>std::ofstream\<close>, whose default mode truncates, and has no check of
  \<^verbatim>\<open>fs::exists\<close> before it, unlike the three directory blocks above it. On a
  repository whose \<^verbatim>\<open>main\<close> holds a digest, the run completes without an error
  message and the file is empty afterwards.
\<close>

theorem init_truncates_main:
  "nodes committed_repository main_branch_path =
     Some (File (''0000000000000000000000000000001b'' @ [nl])) \<and>
   fst (init shown_cwd committed_repository) = Completed \<and>
   reported_errors (snd (snd (init shown_cwd committed_repository))) = [] \<and>
   nodes (fst (snd (init shown_cwd committed_repository))) main_branch_path = Some (File [])"
  by (simp add: init_committed reported_errors_def)
     (simp add: committed_repository_def fresh_repository_def path_defs)

section \<open>The HEAD file\<close>




section \<open>The layout after a successful run\<close>




section \<open>A directory that cannot be created\<close>

text \<open>
  Claim C7, as amended. During \<^verbatim>\<open>init\<close>, a failure to create \<^verbatim>\<open>objects\<close>,
  \<^verbatim>\<open>refs\<close> or \<^verbatim>\<open>refs/heads\<close> is fatal: the run ends at that block, and the
  directory is missing afterwards. If one of the three is missing after the run, then
  the run did not reach the end of the body, the success message was not printed,
  \<^verbatim>\<open>HEAD\<close> and \<^verbatim>\<open>refs/heads/main\<close> are as they were before, and the directories
  after the missing one were not created.
\<close>

theorem init_directory_failure_is_fatal:
  assumes "init cwd fs = (st, fs', ev)"
    and "\<not> fs_exists fs' objects_path \<or> \<not> fs_exists fs' refs_path \<or> \<not> fs_exists fs' heads_path"
  shows "st \<noteq> Completed \<and> success_banner \<notin> set ev \<and>
         nodes fs' head_path = nodes fs head_path \<and>
         nodes fs' main_branch_path = nodes fs main_branch_path \<and>
         (\<not> fs_exists fs' objects_path \<longrightarrow>
            nodes fs' refs_path = nodes fs refs_path \<and> nodes fs' heads_path = nodes fs heads_path) \<and>
         (\<not> fs_exists fs' refs_path \<longrightarrow> nodes fs' heads_path = nodes fs heads_path)"
proof -
  have st: "st \<noteq> Completed"
    using init_completed_dirs(2,3,4) [of cwd fs fs' ev] assms by auto
  from init_stopped(2,3,4) [OF assms(1) st] init_stopped_later_paths [OF assms(1) st] st
  show ?thesis by blast
qed

theorem init_directory_failure_is_fatal_witness:
  "init shown_cwd broken_repository =
     (Terminated, broken_repository,
      [Cout ''Initializing MiniGit repository...'',
       Cout (''Reinitializing existing MiniGit repository in '' @ shown_cwd)]) \<and>
   \<not> fs_exists broken_repository heads_path \<and>
   Terminated \<noteq> Completed \<and>
   success_banner \<notin> set
      [Cout ''Initializing MiniGit repository...'',
       Cout (''Reinitializing existing MiniGit repository in '' @ shown_cwd)] \<and>
   nodes broken_repository main_branch_path = None"
proof -
  have h: "\<not> fs_exists broken_repository objects_path \<or>
      \<not> fs_exists broken_repository refs_path \<or> \<not> fs_exists broken_repository heads_path"
    by (simp add: broken_repository_def path_defs fs_exists_def)
  have m: "nodes broken_repository main_branch_path = None"
    and e: "\<not> fs_exists broken_repository heads_path"
    by (simp_all add: broken_repository_def path_defs fs_exists_def)
  from init_directory_failure_is_fatal [OF init_broken h] init_broken m e
  show ?thesis by blast
qed

text \<open>
  Claim C7 as stated has \<^verbatim>\<open>init\<close> go on after the failure. Where \<^verbatim>\<open>objects\<close>
  cannot be created, the run ends there: \<^verbatim>\<open>refs\<close>, \<^verbatim>\<open>refs/heads\<close>, \<^verbatim>\<open>HEAD\<close>
  and \<^verbatim>\<open>refs/heads/main\<close> are missing afterwards, although \<^verbatim>\<open>refs\<close> could have
  been created and \<^verbatim>\<open>HEAD\<close> could have been opened.
\<close>

theorem init_directory_failure_counterexample:
  "init shown_cwd blocked_objects_repository =
     (Terminated, blocked_objects_repository,
      [Cout ''Initializing MiniGit repository...'',
       Cout (''Reinitializing existing MiniGit repository in '' @ shown_cwd)]) \<and>
   \<not> fs_exists blocked_objects_repository objects_path \<and>
   \<not> fs_exists blocked_objects_repository refs_path \<and>
   \<not> fs_exists blocked_objects_repository heads_path \<and>
   \<not> fs_exists blocked_objects_repository head_path \<and>
   \<not> fs_exists blocked_objects_repository main_branch_path \<and>
   fs_create_directory blocked_objects_repository refs_path \<noteq> Mkdir_error \<and>
   ofstream_open blocked_objects_repository head_path \<noteq> None"
  by (simp add: init_blocked_objects)
     (simp add: blocked_objects_repository_def path_defs fs_exists_def fs_create_directory_def
        ofstream_open_def dir_at_def parent_paths)

section \<open>Digest format\<close>

text \<open>
  Claim C4. For every content string, the digest that a successful \<^verbatim>\<open>save_blob\<close>
  returns is exactly 32 characters long, and each character is one of \<^verbatim>\<open>0-9\<close>,
  \<^verbatim>\<open>a-f\<close>. This holds for every hash function with a 64-bit result and every clock
  reading.
\<close>

theorem save_blob_digest_format:
  assumes "save_blob hasher t c fs = (d, fs', ev)" and "d \<noteq> []"
  shows "length d = 32 \<and> list_all is_lower_hex d"
  using save_blob_ok [OF assms] generate_simple_hash_length generate_simple_hash_chars
  by simp

theorem save_blob_digest_format_witness:
  "save_blob length_hasher 1700000000 ''Hello, MiniGit!'' fresh_repository =
     (''0000000000000000000000000000001b'',
      fresh_repository\<lparr>nodes := (nodes fresh_repository)
         (''.minigit/objects/0000000000000000000000000000001b'' \<mapsto> File ''Hello, MiniGit!'')\<rparr>,
      []) \<and>
   ''0000000000000000000000000000001b'' \<noteq> [] \<and>
   length ''0000000000000000000000000000001b'' = 32 \<and>
   list_all is_lower_hex ''0000000000000000000000000000001b''"
proof -
  have ne: "''0000000000000000000000000000001b'' \<noteq> []" by simp
  from save_blob_digest_format [OF demo_save ne] demo_save ne show ?thesis by blast
qed

section \<open>A blob that cannot be written\<close>




section \<open>What the empty string means\<close>

text \<open>
  Claim C9. \<^verbatim>\<open>read_blob\<close> returns the empty string when the digest has no object
  file, and also when the object file exists and is empty, so the return value does not
  tell the two apart. The failure value of \<^verbatim>\<open>save_blob\<close> is the empty string too;
  a digest has 32 characters, so the empty string is never one.
\<close>

theorem empty_string_is_ambiguous:
  "(nodes fs1 (blob_path h) = None \<longrightarrow> fst (read_blob h fs1) = []) \<and>
   (nodes fs2 (blob_path h) = Some (File []) \<longrightarrow> fst (read_blob h fs2) = []) \<and>
   (ofstream_open fs (blob_path (generate_simple_hash hasher t c)) = None \<longrightarrow>
      fst (save_blob hasher t c fs) = []) \<and>
   length (generate_simple_hash hasher' t' c') = 32 \<and>
   generate_simple_hash hasher' t' c' \<noteq> []"
proof -
  have "generate_simple_hash hasher' t' c' \<noteq> []"
    using generate_simple_hash_length [of hasher' t' c'] by auto
  then show ?thesis
    by (simp add: read_blob_missing_eq read_blob_file save_blob_failed
        generate_simple_hash_length)
qed

theorem empty_string_is_ambiguous_witness:
  "nodes fresh_repository (blob_path ''0000000000000000000000000000001b'') = None \<and>
   fst (read_blob ''0000000000000000000000000000001b'' fresh_repository) = [] \<and>
   nodes (empty_object_repository ''0000000000000000000000000000001b'')
     (blob_path ''0000000000000000000000000000001b'') = Some (File []) \<and>
   fst (read_blob ''0000000000000000000000000000001b''
     (empty_object_repository ''0000000000000000000000000000001b'')) = [] \<and>
   ofstream_open empty_disk
     (blob_path (generate_simple_hash length_hasher 1700000000 ''Hello, MiniGit!'')) = None \<and>
   fst (save_blob length_hasher 1700000000 ''Hello, MiniGit!'' empty_disk) = [] \<and>
   length (generate_simple_hash length_hasher 1700000000 ''Hello, MiniGit!'') = 32 \<and>
   generate_simple_hash length_hasher 1700000000 ''Hello, MiniGit!'' \<noteq> []"
  using empty_string_is_ambiguous [of fresh_repository "''0000000000000000000000000000001b''"
      "empty_object_repository ''0000000000000000000000000000001b''" empty_disk
      length_hasher 1700000000 "''Hello, MiniGit!''" length_hasher 1700000000
      "''Hello, MiniGit!''"]
    fresh_no_object [of "''0000000000000000000000000000001b''"]
    empty_object_present [of "''0000000000000000000000000000001b''"]
    empty_disk_cannot_open
  by blast

section \<open>Two writes in the same second\<close>

text \<open>
  Claim C10. The digest is a function of the content and the clock second (and of the
  hash function, which is fixed during one run of the program). Two calls of
  \<^verbatim>\<open>save_blob\<close> with the same content and the same clock second return the same
  digest; the second call opens the same path \<^verbatim>\<open>objects/<digest>\<close>, which truncates
  the file the first call wrote, and writes the content again.
\<close>

theorem same_second_same_digest:
  assumes "save_blob hasher t c fs = (d1, fs1, ev1)" and "d1 \<noteq> []"
    and "save_blob hasher t c fs1 = (d2, fs2, ev2)"
  shows "d1 = generate_simple_hash hasher t c \<and> d2 = d1 \<and> blob_path d2 = blob_path d1 \<and>
         nodes fs1 (blob_path d1) = Some (File c) \<and>
         ofstream_open fs1 (blob_path d2) =
           Some (fs1\<lparr>nodes := (nodes fs1)(blob_path d1 \<mapsto> File [])\<rparr>) \<and>
         nodes fs2 (blob_path d1) = Some (File c) \<and> fs2 = fs1"
proof -
  from save_blob_ok [OF assms(1,2)]
  have d1: "d1 = generate_simple_hash hasher t c"
    and op: "ofstream_open fs (blob_path d1) \<noteq> None"
    and fs1: "fs1 = fs\<lparr>nodes := (nodes fs)(blob_path d1 \<mapsto> File c)\<rparr>"
    by blast+
  from op have den: "\<not> write_denied fs (blob_path d1)"
    by (auto simp: ofstream_open_def split: if_splits)
  with fs1 have op1: "ofstream_open fs1 (blob_path d1) =
      Some (fs1\<lparr>nodes := (nodes fs1)(blob_path d1 \<mapsto> File [])\<rparr>)"
    by (simp add: ofstream_open_def)
  with assms(3) d1 have "d2 = d1" and "fs2 = fs1"
    using fs1 by (auto simp: save_blob_def Let_def ofstream_write_def)
  with op1 fs1 d1 show ?thesis by simp
qed

theorem same_second_same_digest_witness:
  "save_blob length_hasher 1700000000 ''Hello, MiniGit!'' fresh_repository =
     (''0000000000000000000000000000001b'', hello_repository, []) \<and>
   ''0000000000000000000000000000001b'' \<noteq> [] \<and>
   save_blob length_hasher 1700000000 ''Hello, MiniGit!'' hello_repository =
     (''0000000000000000000000000000001b'', hello_repository, []) \<and>
   nodes hello_repository (blob_path ''0000000000000000000000000000001b'') =
     Some (File ''Hello, MiniGit!'')"
proof -
  have ne: "''0000000000000000000000000000001b'' \<noteq> []" by simp
  from same_second_same_digest [OF demo_save_hello ne demo_save_again]
  have "nodes hello_repository (blob_path ''0000000000000000000000000000001b'') =
     Some (File ''Hello, MiniGit!'')"
    by blast
  with demo_save_hello demo_save_again ne show ?thesis by blast
qed

end
